theory Spec2Isabelle
  imports Complex_Main "HOL-Library.Char_ord" "HOL-Library.List_Lexorder"
begin

section \<open>Data model: cells, tables, errors\<close>

text \<open>
  A pandas DataFrame is modelled as an ordered list of column labels and an ordered list
  of rows, every row holding one cell per label. A cell is missing (\<open>NaN\<close>, which also
  stands for \<open>None\<close> and \<open>NaT\<close>), a number, a text or a timestamp. Numbers are
  rationals: binary floating point rounding is not modelled.

  Scope of the model: the column labels are text; a frame is rectangular (\<open>wf_table\<close>);
  a label is looked up at its first position, which is pandas' behaviour for the frames
  with pairwise distinct labels; the median and the quantiles of a column that holds a
  text or a timestamp are modelled as raising \<open>TypeError\<close>.
\<close>

datatype cell = NaN | Num rat | Str string | Ts int

datatype error = KeyError | TypeError | ValueError | IndexError

record table =
  columns :: "string list"
  rows :: "cell list list"

definition wf_table :: "table \<Rightarrow> bool" where
  "wf_table df = list_all (\<lambda>r. length r = length (columns df)) (rows df)"

fun index_of :: "string list \<Rightarrow> string \<Rightarrow> nat option" where
  "index_of [] c = None"
| "index_of (x # xs) c = (if x = c then Some 0 else map_option Suc (index_of xs c))"

text \<open>\<open>df[c]\<close>: the column labelled \<open>c\<close>, or \<open>KeyError\<close>.\<close>

definition getitem :: "table \<Rightarrow> string \<Rightarrow> error + cell list" where
  "getitem df c =
     (case index_of (columns df) c of
        None \<Rightarrow> Inl KeyError
      | Some i \<Rightarrow> Inr (map (\<lambda>r. r ! i) (rows df)))"

text \<open>
  \<open>df[c] = values\<close>, the values computed row by row (\<open>f\<close> maps a row to its new
  cell): an existing column is overwritten in place, a new one is appended on the right.
\<close>

definition setitem :: "table \<Rightarrow> string \<Rightarrow> (cell list \<Rightarrow> cell) \<Rightarrow> table" where
  "setitem df c f =
     (case index_of (columns df) c of
        None \<Rightarrow> df\<lparr>columns := columns df @ [c], rows := map (\<lambda>r. r @ [f r]) (rows df)\<rparr>
      | Some i \<Rightarrow> df\<lparr>rows := map (\<lambda>r. r[i := f r]) (rows df)\<rparr>)"

text \<open>An update of the cells of one existing column, cell by cell.\<close>

definition map_column :: "table \<Rightarrow> string \<Rightarrow> (cell \<Rightarrow> cell) \<Rightarrow> error + table" where
  "map_column df c g =
     (case index_of (columns df) c of
        None \<Rightarrow> Inl KeyError
      | Some i \<Rightarrow> Inr (df\<lparr>rows := map (\<lambda>r. r[i := g (r ! i)]) (rows df)\<rparr>))"

fun isnull :: "cell \<Rightarrow> bool" where
  "isnull NaN = True"
| "isnull _ = False"

subsection \<open>Numeric series: missing values, median, quantiles\<close>

text \<open>A numeric (float64) reading of a cell: \<open>None\<close> is NaN.\<close>

fun as_float :: "cell \<Rightarrow> error + rat option" where
  "as_float NaN = Inr None"
| "as_float (Num x) = Inr (Some x)"
| "as_float (Str s) = Inl TypeError"
| "as_float (Ts n) = Inl TypeError"

fun float_series :: "cell list \<Rightarrow> error + rat option list" where
  "float_series [] = Inr []"
| "float_series (c # cs) =
     (case as_float c of
        Inl e \<Rightarrow> Inl e
      | Inr x \<Rightarrow> (case float_series cs of Inl e \<Rightarrow> Inl e | Inr xs \<Rightarrow> Inr (x # xs)))"

fun of_float :: "rat option \<Rightarrow> cell" where
  "of_float None = NaN"
| "of_float (Some x) = Num x"

text \<open>The columns of numbers: every cell is a number or missing.\<close>

fun is_numeric :: "cell \<Rightarrow> bool" where
  "is_numeric NaN = True"
| "is_numeric (Num x) = True"
| "is_numeric _ = False"

fun the_float :: "cell \<Rightarrow> rat option" where
  "the_float (Num x) = Some x"
| "the_float _ = None"

definition numeric_column :: "table \<Rightarrow> string \<Rightarrow> bool" where
  "numeric_column df c =
     (case getitem df c of Inl e \<Rightarrow> False | Inr col \<Rightarrow> list_all is_numeric col)"

text \<open>The non-missing values of a numeric series (\<open>skipna\<close>).\<close>

fun dropna :: "rat option list \<Rightarrow> rat list" where
  "dropna [] = []"
| "dropna (None # xs) = dropna xs"
| "dropna (Some x # xs) = x # dropna xs"

text \<open>
  \<open>Series.median()\<close>: the middle value of the sorted non-missing values, the mean of
  the two middle ones when their number is even, NaN when there is none.
\<close>

definition median :: "rat option list \<Rightarrow> rat option" where
  "median xs =
     (let s = sort (dropna xs); n = length s in
      if n = 0 then None
      else if odd n then Some (s ! (n div 2))
      else Some ((s ! (n div 2 - 1) + s ! (n div 2)) / 2))"

text \<open>
  \<open>Series.quantile(q)\<close> with the default linear interpolation: at the virtual
  position \<open>q * (n - 1)\<close> of the sorted non-missing values; NaN when there is none.
\<close>

definition quantile :: "rat option list \<Rightarrow> rat \<Rightarrow> rat option" where
  "quantile xs q =
     (let s = sort (dropna xs); n = length s in
      if n = 0 then None
      else
        let pos = q * of_nat (n - 1);
            lo = nat \<lfloor>pos\<rfloor>;
            hi = min (lo + 1) (n - 1);
            frac = pos - of_nat lo
        in Some (s ! lo + (s ! hi - s ! lo) * frac))"

text \<open>Float arithmetic and comparison with NaN: NaN propagates, and compares False.\<close>

fun nan_add :: "rat option \<Rightarrow> rat option \<Rightarrow> rat option" where
  "nan_add (Some a) (Some b) = Some (a + b)"
| "nan_add _ _ = None"

fun nan_sub :: "rat option \<Rightarrow> rat option \<Rightarrow> rat option" where
  "nan_sub (Some a) (Some b) = Some (a - b)"
| "nan_sub _ _ = None"

fun nan_mul :: "rat option \<Rightarrow> rat option \<Rightarrow> rat option" where
  "nan_mul (Some a) (Some b) = Some (a * b)"
| "nan_mul _ _ = None"

fun nan_gt :: "rat option \<Rightarrow> rat option \<Rightarrow> bool" where
  "nan_gt (Some a) (Some b) = (a > b)"
| "nan_gt _ _ = False"

section \<open>RecordCleaner: \<open>basic_data_cleaning\<close>\<close>

definition required_cols :: "string list" where
  "required_cols = [''Order_ID'', ''Product'', ''Quantity'', ''Price'', ''Order_Date'', ''Region'']"

definition has_sales_data :: "table \<Rightarrow> bool" where
  "has_sales_data df = list_all (\<lambda>c. c \<in> set (columns df)) required_cols"

text \<open>Step 1: missing Price values are filled with the median of the others, when any is missing.\<close>

definition fill_value :: "rat option \<Rightarrow> cell \<Rightarrow> cell" where
  "fill_value m c = (if isnull c then of_float m else c)"

definition fill_price :: "table \<Rightarrow> error + table" where
  "fill_price df =
     (case getitem df ''Price'' of
        Inl e \<Rightarrow> Inl e
      | Inr price \<Rightarrow>
          let price_missing_before = length (filter isnull price) in
          if price_missing_before > 0 then
            (case float_series price of
               Inl e \<Rightarrow> Inl e
             | Inr ps \<Rightarrow> map_column df ''Price'' (fill_value (median ps)))
          else Inr df)"

text \<open>Step 2: missing Region values become the text \<open>Unknown\<close>.\<close>

definition fill_unknown :: "cell \<Rightarrow> cell" where
  "fill_unknown c = (if isnull c then Str ''Unknown'' else c)"

definition fill_region :: "table \<Rightarrow> error + table" where
  "fill_region df =
     (case getitem df ''Region'' of
        Inl e \<Rightarrow> Inl e
      | Inr region \<Rightarrow>
          let region_missing_before = length (filter isnull region) in
          if region_missing_before > 0 then
            map_column df ''Region'' fill_unknown
          else Inr df)"

text \<open>
  Step 3: \<open>drop_duplicates\<close>. \<open>duplicated\<close> marks every row equal to an earlier
  one (missing cells compare equal); the marked rows are removed, the others keep their
  order.
\<close>

fun duplicated_from :: "'a list \<Rightarrow> 'a list \<Rightarrow> bool list" where
  "duplicated_from seen [] = []"
| "duplicated_from seen (r # rs) = (r \<in> set seen) # duplicated_from (r # seen) rs"

definition duplicated :: "'a list \<Rightarrow> bool list" where
  "duplicated rs = duplicated_from [] rs"

text \<open>Boolean indexing \<open>xs[~mask]\<close>: the entries whose mark is False.\<close>

fun unmarked :: "bool list \<Rightarrow> 'a list \<Rightarrow> 'a list" where
  "unmarked (b # bs) (x # xs) = (if b then unmarked bs xs else x # unmarked bs xs)"
| "unmarked _ _ = []"

text \<open>The distinct entries of a list in the order of their first occurrence.\<close>

definition unique :: "'a list \<Rightarrow> 'a list" where
  "unique xs = unmarked (duplicated xs) xs"

definition drop_duplicates :: "table \<Rightarrow> error + table" where
  "drop_duplicates df = Inr (df\<lparr>rows := unmarked (duplicated (rows df)) (rows df)\<rparr>)"

text \<open>
  Step 4: \<open>pd.to_datetime(column, errors='coerce')\<close>. The parser belongs to pandas and
  is a parameter: \<open>to_datetime col c\<close> is the converted cell \<open>c\<close> of the column
  \<open>col\<close> (the whole column is passed since pandas may infer the format from it).
\<close>

definition parse_dates :: "(cell list \<Rightarrow> cell \<Rightarrow> cell) \<Rightarrow> string \<Rightarrow> table \<Rightarrow> error + table" where
  "parse_dates to_datetime c df =
     (case getitem df c of
        Inl e \<Rightarrow> Inl e
      | Inr col \<Rightarrow> map_column df c (to_datetime col))"

text \<open>
  Step 5: the outlier clamp on Quantity. The same statements are the body of
  \<open>handle_outliers\<close> in \<open>data_utils.py\<close>.
\<close>

definition upper_bound_of :: "rat option list \<Rightarrow> rat option" where
  "upper_bound_of qs =
     (let Q1 = quantile qs (1 / 4);
          Q3 = quantile qs (3 / 4);
          IQR = nan_sub Q3 Q1
      in nan_add Q3 (nan_mul (Some (3 / 2)) IQR))"

definition clamp_value :: "rat option \<Rightarrow> rat option \<Rightarrow> rat option" where
  "clamp_value upper_bound x = (if nan_gt x upper_bound then upper_bound else x)"

definition clamp_series :: "rat option list \<Rightarrow> rat option list" where
  "clamp_series qs = map (clamp_value (upper_bound_of qs)) qs"

definition clamp_cell :: "rat option \<Rightarrow> cell \<Rightarrow> cell" where
  "clamp_cell upper_bound c =
     (case as_float c of Inl e \<Rightarrow> c | Inr x \<Rightarrow> of_float (clamp_value upper_bound x))"

definition handle_outliers :: "table \<Rightarrow> error + table" where
  "handle_outliers df =
     (case getitem df ''Quantity'' of
        Inl e \<Rightarrow> Inl e
      | Inr quantity \<Rightarrow>
          (case float_series quantity of
             Inl e \<Rightarrow> Inl e
           | Inr qs \<Rightarrow> map_column df ''Quantity'' (clamp_cell (upper_bound_of qs))))"


text \<open>
  A Price column that holds text is an object column, and pandas multiplies it cell by
  cell as Python does: an integer times a text is the text repeated (\<open>2 * '5'\<close> is
  \<open>'55'\<close>, a number below one gives the empty text), a float times a text raises
  \<open>TypeError\<close>. So the dtype of Quantity matters. pandas reads a column of whole
  numbers without a missing value as int64, and the clamp of step 5 leaves it int64
  unless it writes a bound that is not whole; the model takes a Quantity column for
  int64 when all its cells are whole numbers (whole numbers written with a decimal
  point, a float64 column, are not told apart from these). A text in Quantity does not
  reach this statement: the quantiles of step 5 raise on it.
\<close>

definition is_whole :: "rat \<Rightarrow> bool" where
  "is_whole x = (of_int \<lfloor>x\<rfloor> = x)"

definition int64_series :: "cell list \<Rightarrow> bool" where
  "int64_series col = list_all (\<lambda>c. case c of Num x \<Rightarrow> is_whole x | _ \<Rightarrow> False) col"

definition repeat_text :: "rat \<Rightarrow> string \<Rightarrow> string" where
  "repeat_text n s = concat (replicate (nat \<lfloor>n\<rfloor>) s)"

fun py_mul :: "bool \<Rightarrow> cell \<Rightarrow> cell \<Rightarrow> error + cell" where
  "py_mul int_quantity (Num a) (Num b) = Inr (Num (a * b))"
| "py_mul int_quantity (Num a) NaN = Inr NaN"
| "py_mul int_quantity NaN (Num b) = Inr NaN"
| "py_mul int_quantity NaN NaN = Inr NaN"
| "py_mul int_quantity (Num a) (Str s) =
     (if int_quantity then Inr (Str (repeat_text a s)) else Inl TypeError)"
| "py_mul int_quantity _ _ = Inl TypeError"

fun returns :: "error + 'a \<Rightarrow> bool" where
  "returns (Inr x) = True"
| "returns (Inl e) = False"

definition sales_cell :: "bool \<Rightarrow> cell \<Rightarrow> cell \<Rightarrow> cell" where
  "sales_cell int_quantity a b = (case py_mul int_quantity a b of Inr c \<Rightarrow> c | Inl e \<Rightarrow> NaN)"

definition create_sales :: "table \<Rightarrow> error + table" where
  "create_sales df =
     (case (index_of (columns df) ''Quantity'', index_of (columns df) ''Price'') of
        (Some i, Some j) \<Rightarrow>
          let int_quantity = int64_series (map (\<lambda>r. r ! i) (rows df)) in
          if list_all (\<lambda>r. returns (py_mul int_quantity (r ! i) (r ! j))) (rows df)
          then Inr (setitem df ''Sales'' (\<lambda>r. sales_cell int_quantity (r ! i) (r ! j)))
          else Inl TypeError
      | _ \<Rightarrow> Inl KeyError)"

text \<open>
  Step 7: \<open>pd.to_numeric(column, errors='coerce')\<close>: numbers and missing cells stay, a
  text that does not parse becomes missing. The text parser belongs to pandas and is a
  parameter.
\<close>

fun to_numeric :: "(string \<Rightarrow> rat option) \<Rightarrow> cell \<Rightarrow> cell" where
  "to_numeric parse NaN = NaN"
| "to_numeric parse (Num x) = Num x"
| "to_numeric parse (Str s) = of_float (parse s)"
| "to_numeric parse (Ts n) = Num (of_int n)"

definition coerce_numeric :: "(string \<Rightarrow> rat option) \<Rightarrow> string \<Rightarrow> table \<Rightarrow> error + table" where
  "coerce_numeric parse c df =
     (if c \<in> set (columns df) then map_column df c (to_numeric parse) else Inr df)"

text \<open>The statements of a branch run in order on the same frame; the first exception ends the run.\<close>

fun run_steps :: "(table \<Rightarrow> error + table) list \<Rightarrow> table \<Rightarrow> error + table" where
  "run_steps [] df = Inr df"
| "run_steps (f # fs) df = (case f df of Inl e \<Rightarrow> Inl e | Inr df' \<Rightarrow> run_steps fs df')"

definition full_steps ::
  "(cell list \<Rightarrow> cell \<Rightarrow> cell) \<Rightarrow> (string \<Rightarrow> rat option) \<Rightarrow> (table \<Rightarrow> error + table) list" where
  "full_steps to_datetime parse =
     [fill_price, fill_region, drop_duplicates, parse_dates to_datetime ''Order_Date'',
      handle_outliers, create_sales,
      coerce_numeric parse ''Quantity'', coerce_numeric parse ''Price'',
      coerce_numeric parse ''Sales'']"

text \<open>The partial mode converts the columns that are present and skips the others.\<close>

definition parse_dates_if_present ::
  "(cell list \<Rightarrow> cell \<Rightarrow> cell) \<Rightarrow> string \<Rightarrow> table \<Rightarrow> error + table" where
  "parse_dates_if_present to_datetime c df =
     (if c \<in> set (columns df) then parse_dates to_datetime c df else Inr df)"

definition partial_steps ::
  "(cell list \<Rightarrow> cell \<Rightarrow> cell) \<Rightarrow> (string \<Rightarrow> rat option) \<Rightarrow> (table \<Rightarrow> error + table) list" where
  "partial_steps to_datetime parse =
     [parse_dates_if_present to_datetime ''Order_Date'',
      parse_dates_if_present to_datetime ''date'',
      parse_dates_if_present to_datetime ''Date'',
      coerce_numeric parse ''Quantity'', coerce_numeric parse ''Price'',
      coerce_numeric parse ''Sales'']"

definition cleaning_steps ::
  "(cell list \<Rightarrow> cell \<Rightarrow> cell) \<Rightarrow> (string \<Rightarrow> rat option) \<Rightarrow> table \<Rightarrow> (table \<Rightarrow> error + table) list" where
  "cleaning_steps to_datetime parse df =
     (if has_sales_data df then full_steps to_datetime parse else partial_steps to_datetime parse)"

definition basic_data_cleaning ::
  "(cell list \<Rightarrow> cell \<Rightarrow> cell) \<Rightarrow> (string \<Rightarrow> rat option) \<Rightarrow> table \<Rightarrow> error + table" where
  "basic_data_cleaning to_datetime parse df =
     (let df_clean = df in run_steps (cleaning_steps to_datetime parse df_clean) df_clean)"

subsection \<open>The full mode, row by row\<close>






definition col_numeric :: "nat \<Rightarrow> cell list list \<Rightarrow> bool" where
  "col_numeric i rs = list_all (\<lambda>r. is_numeric (r ! i)) rs"

definition all_len :: "nat \<Rightarrow> cell list list \<Rightarrow> bool" where
  "all_len n rs = list_all (\<lambda>r. length r = n) rs"



subsection \<open>Example frames\<close>

text \<open>
  Parsers for the examples: the date parser keeps timestamps and turns everything else
  into NaT, the number parser reads no text.
\<close>

definition example_to_datetime :: "cell list \<Rightarrow> cell \<Rightarrow> cell" where
  "example_to_datetime col c = (case c of Ts n \<Rightarrow> Ts n | _ \<Rightarrow> NaN)"

definition example_parse :: "string \<Rightarrow> rat option" where
  "example_parse s = None"

text \<open>Scenarios B and C of the specification in one frame of five distinct orders.\<close>

definition sales_example :: table where
  "sales_example =
     \<lparr>columns = [''Order_ID'', ''Product'', ''Quantity'', ''Price'', ''Order_Date'', ''Region''],
      rows = [[Num 1, Str ''Mouse'', Num 1, Num 10, Ts 1, Str ''North''],
              [Num 2, Str ''Mouse'', Num 2, NaN, Ts 2, NaN],
              [Num 3, Str ''Mouse'', Num 3, Num 20, Ts 3, Str ''North''],
              [Num 4, Str ''Mouse'', Num 4, NaN, Ts 4, Str ''South''],
              [Num 5, Str ''Mouse'', Num 100, Num 30, Ts 5, Str ''South'']]\<rparr>"






text \<open>Two Quantity columns for the outlier clamp: four orders, and scenario B.\<close>

definition four_orders_example :: table where
  "four_orders_example = \<lparr>columns = [''Quantity''], rows = [[Num 1], [Num 2], [Num 3], [Num 100]]\<rparr>"

definition five_orders_example :: table where
  "five_orders_example =
     \<lparr>columns = [''Quantity''], rows = [[Num 1], [Num 2], [Num 3], [Num 4], [Num 100]]\<rparr>"

text \<open>
  The frames are objects: both operations start with \<open>df.copy()\<close> and then change
  the copy in place. The object store is the list of the frames allocated so far, an
  address is a position in it.
\<close>

type_synonym store = "table list"

definition df_copy :: "store \<Rightarrow> nat \<Rightarrow> store \<times> nat" where
  "df_copy s a = (s @ [s ! a], length s)"

fun run_steps_inplace ::
  "(table \<Rightarrow> error + table) list \<Rightarrow> store \<Rightarrow> nat \<Rightarrow> store \<times> (error + nat)" where
  "run_steps_inplace [] s a = (s, Inr a)"
| "run_steps_inplace (f # fs) s a =
     (case f (s ! a) of
        Inl e \<Rightarrow> (s, Inl e)
      | Inr df' \<Rightarrow> run_steps_inplace fs (s[a := df']) a)"

definition basic_data_cleaning_obj ::
  "(cell list \<Rightarrow> cell \<Rightarrow> cell) \<Rightarrow> (string \<Rightarrow> rat option) \<Rightarrow> store \<Rightarrow> nat \<Rightarrow> store \<times> (error + nat)" where
  "basic_data_cleaning_obj to_datetime parse s df =
     (let (s1, df_clean) = df_copy s df
      in run_steps_inplace (cleaning_steps to_datetime parse (s1 ! df_clean)) s1 df_clean)"

section \<open>SchemaMapper: \<open>standardize_columns\<close>\<close>

definition column_mapping :: "(string \<times> string) list" where
  "column_mapping =
     [(''order_id'', ''Order_ID''), (''orderid'', ''Order_ID''), (''invoice'', ''Order_ID''),
      (''invoiceno'', ''Order_ID''), (''transaction_id'', ''Order_ID''),
      (''product'', ''Product''), (''product_name'', ''Product''), (''description'', ''Product''),
      (''stockcode'', ''Product''), (''item'', ''Product''),
      (''quantity'', ''Quantity''), (''qty'', ''Quantity''), (''amount'', ''Quantity''),
      (''price'', ''Price''), (''unit_price'', ''Price''), (''unitprice'', ''Price''),
      (''cost'', ''Price''),
      (''date'', ''Order_Date''), (''order_date'', ''Order_Date''),
      (''invoicedate'', ''Order_Date''), (''transaction_date'', ''Order_Date''),
      (''region'', ''Region''), (''country'', ''Region''), (''location'', ''Region''),
      (''area'', ''Region''),
      (''customer'', ''Customer_ID''), (''customer_id'', ''Customer_ID''),
      (''customerid'', ''Customer_ID'')]"

text \<open>
  \<open>col.lower().strip()\<close> on the bytes of a label: the ASCII capitals are lowered and
  the ASCII white space is stripped at both ends (Python also lowers and strips the
  characters beyond ASCII, which no key of the synonym table contains).
\<close>

definition lower_char :: "char \<Rightarrow> char" where
  "lower_char c =
     (if CHR ''A'' \<le> c \<and> c \<le> CHR ''Z'' then char_of (of_char c + (32 :: nat)) else c)"

definition lower :: "string \<Rightarrow> string" where
  "lower s = map lower_char s"

definition is_space :: "char \<Rightarrow> bool" where
  "is_space c =
     (c \<in> set [CHR '' '', CHR 0x09, CHR 0x0A, CHR 0x0B, CHR 0x0C, CHR 0x0D,
               CHR 0x1C, CHR 0x1D, CHR 0x1E, CHR 0x1F])"

definition strip :: "string \<Rightarrow> string" where
  "strip s = rev (dropWhile is_space (rev (dropWhile is_space s)))"

text \<open>A Python dict keeps its keys in insertion order; storing under a present key keeps its place.\<close>

fun dict_set :: "('k \<times> 'v) list \<Rightarrow> 'k \<Rightarrow> 'v \<Rightarrow> ('k \<times> 'v) list" where
  "dict_set [] k v = [(k, v)]"
| "dict_set ((k', v') # kvs) k v =
     (if k' = k then (k, v) # kvs else (k', v') # dict_set kvs k v)"

definition rename_label :: "string \<Rightarrow> string" where
  "rename_label col =
     (let col_lower = strip (lower col) in
      case map_of column_mapping col_lower of Some canonical \<Rightarrow> canonical | None \<Rightarrow> col)"

fun build_new_columns :: "(string \<times> string) list \<Rightarrow> string list \<Rightarrow> (string \<times> string) list" where
  "build_new_columns new_columns [] = new_columns"
| "build_new_columns new_columns (col # cols) =
     build_new_columns (dict_set new_columns col (rename_label col)) cols"

text \<open>\<open>DataFrame.rename(columns=d)\<close> relabels the columns; it moves and merges no data.\<close>

definition rename_columns :: "(string \<times> string) list \<Rightarrow> table \<Rightarrow> table" where
  "rename_columns d df =
     df\<lparr>columns := map (\<lambda>c. case map_of d c of Some c' \<Rightarrow> c' | None \<Rightarrow> c) (columns df)\<rparr>"

definition standardize_columns :: "table \<Rightarrow> string \<Rightarrow> table \<times> (string \<times> string) list" where
  "standardize_columns df file_name =
     (let df_copy = df;
          original_columns = columns df_copy;
          new_columns = build_new_columns [] original_columns;
          df_copy = rename_columns new_columns df_copy;
          df_copy = setitem df_copy ''Source_File'' (\<lambda>r. Str file_name)
      in (df_copy, new_columns))"

definition standardize_columns_obj ::
  "store \<Rightarrow> nat \<Rightarrow> string \<Rightarrow> store \<times> nat \<times> (string \<times> string) list" where
  "standardize_columns_obj s df file_name =
     (let (s1, df_copy) = df_copy s df;
          original_columns = columns (s1 ! df_copy);
          new_columns = build_new_columns [] original_columns;
          s2 = s1[df_copy := rename_columns new_columns (s1 ! df_copy)];
          s3 = s2[df_copy := setitem (s2 ! df_copy) ''Source_File'' (\<lambda>r. Str file_name)]
      in (s3, df_copy, new_columns))"

section \<open>The driver: \<open>process_single_file\<close> and \<open>process_multiple_files\<close>\<close>

text \<open>
  An exception is modelled by what its message is built from: \<open>ProcessingFailed p e\<close>
  is the exception \<open>process_single_file\<close> raises for the path \<open>p\<close> around the
  message of \<open>e\<close>.
\<close>

datatype exn = External string | Cleaning error | ProcessingFailed string exn

text \<open>
  What lies outside the core is a parameter: reading a file, the pandas parsers, the
  charts and the summary. Each of them either returns or raises.
\<close>

record 's env =
  load_file :: "string \<Rightarrow> exn + table"
  to_datetime :: "cell list \<Rightarrow> cell \<Rightarrow> cell"
  parse_number :: "string \<Rightarrow> rat option"
  generate_sales_visualization :: "table \<Rightarrow> exn + string list"
  generate_file_summary :: "table \<Rightarrow> string \<Rightarrow> exn + 's"

record 's file_data =
  original_data :: table
  processed_data :: table
  column_mapping_of :: "(string \<times> string) list"
  summary :: 's
  file_path :: string
  visualization_files :: "string list"

text \<open>
  The processor object: its dict of processed files. (The attribute \<open>combined_data\<close>
  is the value \<open>combine_all_data\<close> returns on success and is not kept in the model.)
\<close>

record 's processor =
  processed_files :: "(string \<times> 's file_data) list"

text \<open>\<open>Path(p).name\<close>: the final component of a path written with \<open>/\<close>.\<close>

definition path_name :: "string \<Rightarrow> string" where
  "path_name p = rev (takeWhile (\<lambda>c. c \<noteq> CHR ''/'') (rev p))"

definition process_single_file ::
  "'s env \<Rightarrow> 's processor \<Rightarrow> string \<Rightarrow> (exn + table \<times> 's) \<times> 's processor" where
  "process_single_file env self path =
     (case load_file env path of
        Inl e \<Rightarrow> (Inl (ProcessingFailed path e), self)
      | Inr df \<Rightarrow>
          let file_name = path_name path;
              (df_std, mapping) = standardize_columns df file_name
          in
          (case basic_data_cleaning (to_datetime env) (parse_number env) df_std of
             Inl e \<Rightarrow> (Inl (ProcessingFailed path (Cleaning e)), self)
           | Inr df_clean \<Rightarrow>
          (case (if has_sales_data df_clean \<and> ''Sales'' \<in> set (columns df_clean)
                 then generate_sales_visualization env df_clean else Inr []) of
             Inl e \<Rightarrow> (Inl (ProcessingFailed path e), self)
           | Inr charts \<Rightarrow>
          (case generate_file_summary env df_clean file_name of
             Inl e \<Rightarrow> (Inl (ProcessingFailed path e), self)
           | Inr sm \<Rightarrow>
               (Inr (df_clean, sm),
                self\<lparr>processed_files :=
                  dict_set (processed_files self) file_name
                    \<lparr>original_data = df, processed_data = df_clean,
                     column_mapping_of = mapping, summary = sm, file_path = path,
                     visualization_files = charts\<rparr>\<rparr>)))))"

datatype 's outcome = Success table 's string | Failure exn string

text \<open>
  The progress callback is optional and may raise: \<open>cb current total_files name\<close> is
  \<open>Some e\<close> when the call raises \<open>e\<close>; \<open>name\<close> is the file the message names,
  \<open>None\<close> in the closing call. Inside the loop the call stands in the \<open>try\<close> block.
\<close>

type_synonym callback = "nat \<Rightarrow> nat \<Rightarrow> string option \<Rightarrow> exn option"

definition call_progress :: "callback option \<Rightarrow> nat \<Rightarrow> nat \<Rightarrow> string option \<Rightarrow> exn option" where
  "call_progress progress_callback current total_files name =
     (case progress_callback of None \<Rightarrow> None | Some cb \<Rightarrow> cb current total_files name)"

text \<open>The body of the loop: the \<open>try\<close> block around one file, and its \<open>except\<close> clause.\<close>

definition try_file ::
  "'s env \<Rightarrow> callback option \<Rightarrow> nat \<Rightarrow> nat \<Rightarrow> 's processor \<Rightarrow> string \<Rightarrow> 's outcome \<times> 's processor" where
  "try_file env cb total_files i self path =
     (case call_progress cb (i - 1) total_files (Some (path_name path)) of
        Some e \<Rightarrow> (Failure e path, self)
      | None \<Rightarrow>
          (case process_single_file env self path of
             (Inr (df_processed, sm), self') \<Rightarrow> (Success df_processed sm path, self')
           | (Inl e, self') \<Rightarrow> (Failure e path, self')))"

fun process_files_loop ::
  "'s env \<Rightarrow> callback option \<Rightarrow> nat \<Rightarrow> nat \<Rightarrow> string list \<Rightarrow>
   (string \<times> 's outcome) list \<Rightarrow> 's processor \<Rightarrow> (string \<times> 's outcome) list \<times> 's processor" where
  "process_files_loop env cb total_files i [] results self = (results, self)"
| "process_files_loop env cb total_files i (path # rest) results self =
     (let (outcome, self') = try_file env cb total_files i self path
      in process_files_loop env cb total_files (i + 1) rest
           (dict_set results (path_name path) outcome) self')"

definition process_multiple_files ::
  "'s env \<Rightarrow> callback option \<Rightarrow> string list \<Rightarrow> 's processor \<Rightarrow>
   (exn + (string \<times> 's outcome) list) \<times> 's processor" where
  "process_multiple_files env cb file_paths self =
     (let total_files = length file_paths;
          (results, self') = process_files_loop env cb total_files 1 file_paths [] self
      in case call_progress cb total_files total_files None of
           Some e \<Rightarrow> (Inl e, self')
         | None \<Rightarrow> (Inr results, self'))"

section \<open>SchemaReconciler: \<open>combine_all_data\<close>\<close>

subsection \<open>Collecting the frames, repairing duplicate labels\<close>














subsection \<open>pandas: reindexing and concatenation\<close>

text \<open>
  \<open>df.reindex(columns=cols)\<close>, also \<open>df[cols]\<close> for labels of the frame: the columns in
  the order given, a label the frame lacks giving a column of NaN. Adding the lacking
  columns as NaN beforehand, as the merge does, changes nothing in the result.
\<close>

definition reindex :: "table \<Rightarrow> string list \<Rightarrow> table" where
  "reindex df cols =
     \<lparr>columns = cols,
      rows = map (\<lambda>r. map (\<lambda>c. case index_of (columns df) c of
                                   None \<Rightarrow> NaN | Some i \<Rightarrow> r ! i) cols) (rows df)\<rparr>"


subsection \<open>Tier 1: the full union\<close>


subsection \<open>Tier 2: grouping by signature\<close>






subsection \<open>The three tiers\<close>


subsection \<open>Vocabulary for the merge\<close>

text \<open>The column \<open>c\<close> of a frame, all NaN when the frame lacks the label.\<close>

definition column_or_nan :: "table \<Rightarrow> string \<Rightarrow> cell list" where
  "column_or_nan df c =
     map (\<lambda>r. case index_of (columns df) c of None \<Rightarrow> NaN | Some j \<Rightarrow> r ! j) (rows df)"








section \<open>Examples for the mapper and the driver\<close>

text \<open>Two source columns that both map to Quantity.\<close>

definition two_quantities_example :: table where
  "two_quantities_example = \<lparr>columns = [''Qty'', ''quantity''], rows = [[Num 1, Num 2]]\<rparr>"




definition orders_table :: table where
  "orders_table = \<lparr>columns = [''Item'', ''Qty''], rows = [[Str ''Mouse'', Num 2]]\<rparr>"

definition header_only_table :: table where
  "header_only_table = \<lparr>columns = [''Item'', ''Qty''], rows = []\<rparr>"

definition returns_table :: table where
  "returns_table = \<lparr>columns = [''Item'', ''Reason''], rows = [[Str ''Mouse'', Str ''broken'']]\<rparr>"

definition example_env :: "nat env" where
  "example_env =
     \<lparr>load_file = (\<lambda>p. if p = ''data/orders.csv'' \<or> p = ''data/old/orders.csv'' then Inr orders_table
                        else if p = ''data/returns.csv'' then Inr returns_table
                        else if p = ''data/empty.csv'' then Inr header_only_table
                        else Inl (External ''cannot read'')),
      to_datetime = example_to_datetime,
      parse_number = example_parse,
      generate_sales_visualization = (\<lambda>df. Inr []),
      generate_file_summary = (\<lambda>df file_name. Inr (length (rows df)))\<rparr>"

definition new_processor :: "'s processor" where
  "new_processor = \<lparr>processed_files = []\<rparr>"

section \<open>Properties\<close>

lemma index_of_SomeD: "index_of cs c = Some i \<Longrightarrow> i < length cs \<and> cs ! i = c"
  by (induction cs arbitrary: i) (auto split: if_splits)

lemma index_of_None_iff: "index_of cs c = None \<longleftrightarrow> c \<notin> set cs"
  by (induction cs) auto

lemma index_of_mem: "c \<in> set cs \<Longrightarrow> \<exists>i. index_of cs c = Some i"
  using index_of_None_iff [of cs c] by (cases "index_of cs c") auto


lemma of_float_the_float: "is_numeric c \<Longrightarrow> of_float (the_float c) = c"
  by (cases c) auto

lemma as_float_numeric: "is_numeric c \<Longrightarrow> as_float c = Inr (the_float c)"
  by (cases c) auto

lemma float_series_numeric:
  "list_all is_numeric cs \<Longrightarrow> float_series cs = Inr (map the_float cs)"
  by (induction cs) (auto simp: as_float_numeric)

lemma float_series_Inr_numeric:
  "float_series cs = Inr xs \<Longrightarrow> list_all is_numeric cs"
proof (induction cs arbitrary: xs)
  case Nil
  then show ?case by simp
next
  case (Cons c cs)
  then show ?case by (cases c) (auto split: sum.splits)
qed

lemma is_numeric_of_float: "is_numeric (of_float x)"
  by (cases x) auto

lemma list_update_same_nth: "r[i := r ! i] = r"
  by simp




lemma map_update_id:
  assumes "\<And>r. r \<in> set rs \<Longrightarrow> g (r ! i) = r ! i"
  shows "map (\<lambda>r. r[i := g (r ! i)]) rs = rs"
  using assms by (induction rs) auto

lemma table_rows_id: "df\<lparr>rows := rows df\<rparr> = df"
  by simp

lemma no_missing_iff: "\<not> 0 < length (filter P xs) \<longleftrightarrow> (\<forall>x\<in>set xs. \<not> P x)"
  by (induction xs) auto





lemma handle_outliers_rows:
  assumes i: "index_of (columns df) ''Quantity'' = Some i"
    and num: "list_all is_numeric (map (\<lambda>r. r ! i) (rows df))"
  shows "handle_outliers df =
    Inr (df\<lparr>rows := map (\<lambda>r. r[i := clamp_cell (upper_bound_of (map the_float (map (\<lambda>r. r ! i) (rows df)))) (r ! i)]) (rows df)\<rparr>)"
  using i float_series_numeric [OF num]
  by (simp add: handle_outliers_def getitem_def map_column_def)











lemma col_numeric_map: "col_numeric i rs \<longleftrightarrow> list_all is_numeric (map (\<lambda>r. r ! i) rs)"
  by (simp add: col_numeric_def list_all_iff)







lemma is_numeric_clamp_cell: "is_numeric c \<Longrightarrow> is_numeric (clamp_cell u c)"
  by (cases c) (auto simp: clamp_cell_def is_numeric_of_float)

















lemma numeric_columnD:
  assumes "numeric_column df c"
  shows "\<exists>i. index_of (columns df) c = Some i \<and> col_numeric i (rows df)
     \<and> getitem df c = Inr (map (\<lambda>r. r ! i) (rows df))"
  using assms
  by (cases "index_of (columns df) c")
     (auto simp: numeric_column_def getitem_def col_numeric_def list_all_iff)

lemma wf_table_all_len: "wf_table df \<longleftrightarrow> all_len (length (columns df)) (rows df)"
  by (simp add: wf_table_def all_len_def)







lemma col_update_same:
  "all_len n rs \<Longrightarrow> i < n \<Longrightarrow> map (\<lambda>r. r ! i) (map (\<lambda>r. r[i := g (r ! i)]) rs) = map g (map (\<lambda>r. r ! i) rs)"
  by (induction rs) (auto simp: all_len_def)






















lemma fill_value_Some_not_null: "\<not> isnull (fill_value (Some m) c)"
  by (cases c) (simp_all add: fill_value_def)





lemma clamp_cell_idem: "clamp_cell ub (clamp_cell ub c) = clamp_cell ub c"
  by (cases c; cases ub) (auto simp: clamp_cell_def clamp_value_def)

lemma not_above_after_clamp: "\<not> nan_gt (the_float (clamp_cell ub c)) ub"
  by (cases c; cases ub) (auto simp: clamp_cell_def clamp_value_def)

text \<open>
  Claim C6, as amended. After the clamp no Quantity value is above the bound it was
  computed with, and a second application changes nothing whenever the clamped column
  has the same Q1 and Q3 as the original one.
\<close>

theorem clamp_idempotent_when_quartiles_stay:
  assumes wf: "wf_table df" and "distinct (columns df)"
    and nq: "numeric_column df ''Quantity''"
    and h: "handle_outliers df = Inr out"
    and g: "getitem df ''Quantity'' = Inr quantity"
    and g': "getitem out ''Quantity'' = Inr quantity_out"
    and q1: "quantile (map the_float quantity_out) (1 / 4) = quantile (map the_float quantity) (1 / 4)"
    and q3: "quantile (map the_float quantity_out) (3 / 4) = quantile (map the_float quantity) (3 / 4)"
  shows "handle_outliers out = Inr out
    \<and> list_all (\<lambda>c. \<not> nan_gt (the_float c) (upper_bound_of (map the_float quantity))) quantity_out"
proof -
  define ub where "ub = upper_bound_of (map the_float quantity)"
  obtain i where i: "index_of (columns df) ''Quantity'' = Some i"
    and numq: "col_numeric i (rows df)"
    and gi: "getitem df ''Quantity'' = Inr (map (\<lambda>r. r ! i) (rows df))"
    using numeric_columnD [OF nq] by blast
  have qi: "quantity = map (\<lambda>r. r ! i) (rows df)" using g gi by simp
  have len: "all_len (length (columns df)) (rows df)"
    using wf by (simp add: wf_table_all_len)
  have lt: "i < length (columns df)" using index_of_SomeD [OF i] by simp
  have out: "out = df\<lparr>rows := map (\<lambda>r. r[i := clamp_cell ub (r ! i)]) (rows df)\<rparr>"
    using handle_outliers_rows [OF i] numq h by (simp add: col_numeric_map ub_def qi)
  have io: "index_of (columns out) ''Quantity'' = Some i" using i by (simp add: out)
  have col: "map (\<lambda>r. r ! i) (rows out) = map (clamp_cell ub) quantity"
    using col_update_same [OF len lt, of "clamp_cell ub"] by (simp add: out qi)
  then have qo: "quantity_out = map (clamp_cell ub) quantity"
    using g' io by (simp add: getitem_def)
  have ub': "upper_bound_of (map the_float quantity_out) = ub"
    by (simp add: upper_bound_of_def q1 q3 ub_def)
  have "list_all is_numeric quantity"
    using numq by (simp add: qi col_numeric_map)
  then have numo: "list_all is_numeric (map (\<lambda>r. r ! i) (rows out))"
    unfolding col by (simp add: list_all_iff is_numeric_clamp_cell)
  have fixed: "map (\<lambda>r. r[i := clamp_cell ub (r ! i)]) (rows out) = rows out"
  proof (rule map_update_id)
    fix r assume "r \<in> set (rows out)"
    then have "r ! i \<in> set (map (\<lambda>r. r ! i) (rows out))" by auto
    then obtain c where "r ! i = clamp_cell ub c" unfolding col by auto
    then show "clamp_cell ub (r ! i) = r ! i" by (simp add: clamp_cell_idem)
  qed
  have "map the_float (map (\<lambda>r. r ! i) (rows out)) = map the_float quantity_out"
    using g' io by (simp add: getitem_def)
  then have "upper_bound_of (map the_float (map (\<lambda>r. r ! i) (rows out))) = ub"
    using ub' by simp
  then have "handle_outliers out = Inr (out\<lparr>rows := map (\<lambda>r. r[i := clamp_cell ub (r ! i)]) (rows out)\<rparr>)"
    using handle_outliers_rows [OF io numo] by simp
  then have "handle_outliers out = Inr out" by (simp add: fixed)
  moreover have "list_all (\<lambda>c. \<not> nan_gt (the_float c) ub) quantity_out"
    unfolding qo by (simp add: list_all_iff not_above_after_clamp)
  ultimately show ?thesis by (simp add: ub_def)
qed









text \<open>
  Claim C6 as first stated fails on \<open>[1, 2, 3, 100]\<close>: the first clamp gives
  \<open>65.5\<close> for the last value, the second one \<open>43.9375\<close>.
\<close>

theorem clamp_not_idempotent_counterexample:
  "handle_outliers four_orders_example
     = Inr \<lparr>columns = [''Quantity''], rows = [[Num 1], [Num 2], [Num 3], [Num (131 / 2)]]\<rparr>
   \<and> handle_outliers \<lparr>columns = [''Quantity''], rows = [[Num 1], [Num 2], [Num 3], [Num (131 / 2)]]\<rparr>
     = Inr \<lparr>columns = [''Quantity''], rows = [[Num 1], [Num 2], [Num 3], [Num (703 / 16)]]\<rparr>"
  by code_simp

lemma five_orders_example_ok:
  "wf_table five_orders_example" "distinct (columns five_orders_example)"
  "numeric_column five_orders_example ''Quantity''"
  "getitem five_orders_example ''Quantity'' = Inr [Num 1, Num 2, Num 3, Num 4, Num 100]"
  by (simp_all add: five_orders_example_def wf_table_def numeric_column_def getitem_def)

text \<open>Claim C6, as amended, on scenario B.\<close>

theorem clamp_idempotent_when_quartiles_stay_witness:
  "wf_table five_orders_example \<and> distinct (columns five_orders_example)
   \<and> numeric_column five_orders_example ''Quantity''
   \<and> handle_outliers five_orders_example
       = Inr \<lparr>columns = [''Quantity''], rows = [[Num 1], [Num 2], [Num 3], [Num 4], [Num 7]]\<rparr>
   \<and> handle_outliers \<lparr>columns = [''Quantity''], rows = [[Num 1], [Num 2], [Num 3], [Num 4], [Num 7]]\<rparr>
       = Inr \<lparr>columns = [''Quantity''], rows = [[Num 1], [Num 2], [Num 3], [Num 4], [Num 7]]\<rparr>"
proof -
  define out where "out = \<lparr>columns = [''Quantity''], rows = [[Num 1], [Num 2], [Num 3], [Num 4], [Num 7]]\<rparr>"
  have h: "handle_outliers five_orders_example = Inr out"
    by (simp add: out_def five_orders_example_def handle_outliers_def getitem_def map_column_def
      upper_bound_of_def quantile_def clamp_cell_def clamp_value_def)
  have g': "getitem out ''Quantity'' = Inr [Num 1, Num 2, Num 3, Num 4, Num 7]"
    by (simp add: out_def getitem_def)
  have q: "quantile (map the_float [Num 1, Num 2, Num 3, Num 4, Num 7]) (1 / 4)
         = quantile (map the_float [Num 1, Num 2, Num 3, Num 4, Num 100]) (1 / 4)"
    "quantile (map the_float [Num 1, Num 2, Num 3, Num 4, Num 7]) (3 / 4)
         = quantile (map the_float [Num 1, Num 2, Num 3, Num 4, Num 100]) (3 / 4)"
    by (simp_all add: quantile_def)
  have "handle_outliers out = Inr out"
    using clamp_idempotent_when_quartiles_stay [OF five_orders_example_ok(1,2,3) h
        five_orders_example_ok(4) g' q] by simp
  then show ?thesis using five_orders_example_ok h by (simp add: out_def)
qed

lemma map_of_dict_set: "map_of (dict_set d k v) = (map_of d)(k \<mapsto> v)"
  by (induction d) (auto simp: fun_eq_iff)

lemma map_of_build_new_columns:
  "map_of (build_new_columns d cols) c
     = (if c \<in> set cols then Some (rename_label c) else map_of d c)"
  by (induction cols arbitrary: d) (auto simp: map_of_dict_set)

lemma rename_columns_build:
  "rename_columns (build_new_columns [] (columns df)) df
     = df\<lparr>columns := map rename_label (columns df)\<rparr>"
  by (simp add: rename_columns_def map_of_build_new_columns cong: map_cong)

lemma standardize_columns_eq:
  "fst (standardize_columns df file_name)
     = setitem (df\<lparr>columns := map rename_label (columns df)\<rparr>) ''Source_File'' (\<lambda>r. Str file_name)"
  by (simp add: standardize_columns_def Let_def rename_columns_build)

text \<open>
  Claim C7, as amended. \<open>standardize_columns\<close> relabels and merges nothing: when the
  labels at two positions \<open>i < j\<close> of a rectangular frame map to the same name (other
  than the provenance label), the mapped frame carries that name at both positions,
  each column keeps its own values, and the labels of the mapped frame are not
  pairwise distinct.
\<close>

theorem colliding_columns_are_both_kept:
  assumes wf: "wf_table df"
    and ij: "i < j" "j < length (columns df)"
    and same: "rename_label (columns df ! i) = c" "rename_label (columns df ! j) = c"
    and c: "c \<noteq> ''Source_File''"
  shows "\<exists>out new_columns.
      standardize_columns df file_name = (out, new_columns)
    \<and> columns out ! i = c \<and> columns out ! j = c
    \<and> \<not> distinct (columns out)
    \<and> length (rows out) = length (rows df)
    \<and> (\<forall>n < length (rows df).
          rows out ! n ! i = rows df ! n ! i \<and> rows out ! n ! j = rows df ! n ! j)"
proof -
  define cols where "cols = map rename_label (columns df)"
  define out where "out = fst (standardize_columns df file_name)"
  have il: "i < length cols" and jl: "j < length cols"
    using ij by (simp_all add: cols_def)
  have ci: "cols ! i = c" and cj: "cols ! j = c"
    using same ij by (simp_all add: cols_def)
  have rl: "length r = length cols" if "r \<in> set (rows df)" for r
    using wf that by (simp add: wf_table_def list_all_iff cols_def)
  have nd: "\<not> distinct cols"
  proof
    assume "distinct cols"
    then have "(cols ! i = cols ! j) = (i = j)" using il jl by (rule nth_eq_iff_index_eq)
    then have "i = j" using ci cj by simp
    with ij(1) show False by simp
  qed
  have out_eq: "out = setitem (df\<lparr>columns := cols\<rparr>) ''Source_File'' (\<lambda>r. Str file_name)"
    by (simp add: out_def cols_def standardize_columns_eq)
  have main: "columns out ! i = c \<and> columns out ! j = c \<and> \<not> distinct (columns out)
    \<and> length (rows out) = length (rows df)
    \<and> (\<forall>n < length (rows df).
          rows out ! n ! i = rows df ! n ! i \<and> rows out ! n ! j = rows df ! n ! j)"
  proof (cases "index_of cols ''Source_File''")
    case None
    then have o: "out = df\<lparr>columns := cols @ [''Source_File''],
        rows := map (\<lambda>r. r @ [Str file_name]) (rows df)\<rparr>"
      by (simp add: out_eq setitem_def)
    have "\<not> distinct (cols @ [''Source_File''])" using nd by simp
    moreover have "rows out ! n ! i = rows df ! n ! i \<and> rows out ! n ! j = rows df ! n ! j"
      if "n < length (rows df)" for n
      using that rl [of "rows df ! n"] il jl by (simp add: o nth_append)
    ultimately show ?thesis
      using il jl ci cj by (simp add: o nth_append)
  next
    case (Some ks)
    then have o: "out = df\<lparr>columns := cols, rows := map (\<lambda>r. r[ks := Str file_name]) (rows df)\<rparr>"
      by (simp add: out_eq setitem_def)
    have "cols ! ks = ''Source_File''" using index_of_SomeD [OF Some] by simp
    then have ne: "ks \<noteq> i" "ks \<noteq> j" using ci cj c by auto
    note nd
    moreover have "rows out ! n ! i = rows df ! n ! i \<and> rows out ! n ! j = rows df ! n ! j"
      if "n < length (rows df)" for n
      using that ne by (simp add: o)
    ultimately show ?thesis
      using ci cj by (simp add: o)
  qed
  have "standardize_columns df file_name = (out, snd (standardize_columns df file_name))"
    by (simp add: out_def)
  with main show ?thesis by blast
qed

text \<open>Claim C7, as amended, on the example: both Quantity columns are there.\<close>

theorem colliding_columns_are_both_kept_witness:
  "wf_table two_quantities_example \<and> (0::nat) < 1 \<and> 1 < length (columns two_quantities_example)
   \<and> rename_label (columns two_quantities_example ! 0) = ''Quantity''
   \<and> rename_label (columns two_quantities_example ! 1) = ''Quantity''
   \<and> ''Quantity'' \<noteq> ''Source_File''
   \<and> (\<exists>out new_columns.
        standardize_columns two_quantities_example ''a.csv'' = (out, new_columns)
      \<and> columns out ! 0 = ''Quantity'' \<and> columns out ! 1 = ''Quantity''
      \<and> \<not> distinct (columns out)
      \<and> length (rows out) = length (rows two_quantities_example)
      \<and> (\<forall>n < length (rows two_quantities_example).
            rows out ! n ! 0 = rows two_quantities_example ! n ! 0
          \<and> rows out ! n ! 1 = rows two_quantities_example ! n ! 1))"
proof -
  have h: "wf_table two_quantities_example" "(0::nat) < 1"
    "1 < length (columns two_quantities_example)"
    by (simp_all add: two_quantities_example_def wf_table_def)
  have r: "rename_label (columns two_quantities_example ! 0) = ''Quantity''"
    "rename_label (columns two_quantities_example ! 1) = ''Quantity''"
    by code_simp+
  have c: "''Quantity'' \<noteq> ''Source_File''" by simp
  show ?thesis
    using h r c colliding_columns_are_both_kept [OF h r c, of "''a.csv''"] by blast
qed

text \<open>
  Claim C7 as first stated fails: the mapped frame has the label Quantity twice, and the
  first of the two columns still holds its own value.
\<close>

theorem later_column_overwrites_counterexample:
  "rename_label ''Qty'' = ''Quantity'' \<and> rename_label ''quantity'' = ''Quantity''
   \<and> fst (standardize_columns two_quantities_example ''a.csv'')
       = \<lparr>columns = [''Quantity'', ''Quantity'', ''Source_File''],
          rows = [[Num 1, Num 2, Str ''a.csv'']]\<rparr>
   \<and> count_list (columns (fst (standardize_columns two_quantities_example ''a.csv''))) ''Quantity'' = 2"
  by code_simp

lemma run_steps_inplace_frame:
  assumes "a < length s" and "run_steps_inplace fs s a = (s', res)"
  shows "length s' = length s \<and> (\<forall>b. b \<noteq> a \<longrightarrow> s' ! b = s ! b)
     \<and> (case res of
          Inl e \<Rightarrow> run_steps fs (s ! a) = Inl e
        | Inr a' \<Rightarrow> a' = a \<and> run_steps fs (s ! a) = Inr (s' ! a))"
  using assms
proof (induction fs arbitrary: s)
  case Nil
  then show ?case by auto
next
  case (Cons f fs)
  show ?case
  proof (cases "f (s ! a)")
    case (Inl e)
    with Cons.prems show ?thesis by auto
  next
    case (Inr df')
    with Cons.prems have run: "run_steps_inplace fs (s[a := df']) a = (s', res)" by simp
    have "a < length (s[a := df'])" using Cons.prems(1) by simp
    from Cons.IH [OF this run] Cons.prems(1) Inr show ?thesis
      by (auto split: sum.splits)
  qed
qed

lemma basic_data_cleaning_obj_frame:
  assumes "df < length s" and "basic_data_cleaning_obj td pn s df = (s', res)"
  shows "length s' = length s + 1 \<and> (\<forall>a < length s. s' ! a = s ! a)
     \<and> (case res of
          Inl e \<Rightarrow> basic_data_cleaning td pn (s ! df) = Inl e
        | Inr df_clean \<Rightarrow> df_clean = length s \<and> basic_data_cleaning td pn (s ! df) = Inr (s' ! df_clean))"
proof -
  define s1 where "s1 = s @ [s ! df]"
  have c: "s1 ! length s = s ! df" by (simp add: s1_def)
  have run: "run_steps_inplace (cleaning_steps td pn (s ! df)) s1 (length s) = (s', res)"
    using assms(2) by (simp add: basic_data_cleaning_obj_def df_copy_def s1_def)
  have "length s < length s1" by (simp add: s1_def)
  from run_steps_inplace_frame [OF this run]
  have l: "length s' = length s1" and o: "\<forall>b. b \<noteq> length s \<longrightarrow> s' ! b = s1 ! b"
    and r: "(case res of
          Inl e \<Rightarrow> run_steps (cleaning_steps td pn (s ! df)) (s ! df) = Inl e
        | Inr a' \<Rightarrow> a' = length s \<and> run_steps (cleaning_steps td pn (s ! df)) (s ! df) = Inr (s' ! length s))"
    by (auto simp: c split: sum.splits)
  have "\<forall>a < length s. s' ! a = s ! a"
    using o by (simp add: s1_def nth_append)
  moreover have "length s' = length s + 1" using l by (simp add: s1_def)
  ultimately show ?thesis
    using r by (auto simp: basic_data_cleaning_def split: sum.splits)
qed

lemma standardize_columns_obj_frame:
  assumes "df < length s" and "standardize_columns_obj s df file_name = (s', df_std, m)"
  shows "df_std = length s \<and> length s' = length s + 1 \<and> (\<forall>a < length s. s' ! a = s ! a)
     \<and> standardize_columns (s ! df) file_name = (s' ! df_std, m)"
  using assms
  by (auto simp: standardize_columns_obj_def standardize_columns_def df_copy_def Let_def nth_append)

text \<open>
  Claim C9. \<open>standardize_columns\<close> and \<open>basic_data_cleaning\<close> work on a copy: every
  frame that was in the store before the call, the input frame among them, is the same
  afterwards, whether the call returns or raises; the frame returned is a new object and
  holds the value the operation computes from the input. This holds for the mapper, for
  the cleaner run on the mapper's result (as \<open>process_single_file\<close> does) and for the
  cleaner run on any frame.
\<close>

theorem input_frame_is_never_mutated:
  assumes "df < length s"
  shows "(case standardize_columns_obj s df file_name of
            (s', df_std, m) \<Rightarrow>
              df_std = length s \<and> (\<forall>a < length s. s' ! a = s ! a)
            \<and> standardize_columns (s ! df) file_name = (s' ! df_std, m)
            \<and> (case basic_data_cleaning_obj td pn s' df_std of
                  (s'', res) \<Rightarrow>
                    (\<forall>a < length s. s'' ! a = s ! a) \<and> s'' ! df_std = s' ! df_std
                  \<and> (case res of
                        Inl e \<Rightarrow> basic_data_cleaning td pn (s' ! df_std) = Inl e
                      | Inr df_clean \<Rightarrow>
                          df_clean = length s + 1
                        \<and> basic_data_cleaning td pn (s' ! df_std) = Inr (s'' ! df_clean))))
       \<and> (case basic_data_cleaning_obj td pn s df of
            (s', res) \<Rightarrow>
              (\<forall>a < length s. s' ! a = s ! a)
            \<and> (case res of
                  Inl e \<Rightarrow> basic_data_cleaning td pn (s ! df) = Inl e
                | Inr df_clean \<Rightarrow>
                    df_clean = length s \<and> basic_data_cleaning td pn (s ! df) = Inr (s' ! df_clean)))"
proof -
  obtain s' df_std m where st: "standardize_columns_obj s df file_name = (s', df_std, m)"
    by (cases "standardize_columns_obj s df file_name") auto
  from standardize_columns_obj_frame [OF assms st]
  have a: "df_std = length s" and l: "length s' = length s + 1"
    and k: "\<forall>a < length s. s' ! a = s ! a"
    and v: "standardize_columns (s ! df) file_name = (s' ! df_std, m)"
    by simp_all
  obtain s'' res where cl: "basic_data_cleaning_obj td pn s' df_std = (s'', res)"
    by (cases "basic_data_cleaning_obj td pn s' df_std") auto
  have "df_std < length s'" using a l by simp
  from basic_data_cleaning_obj_frame [OF this cl]
  have k2: "\<forall>a < length s'. s'' ! a = s' ! a"
    and r2: "(case res of
          Inl e \<Rightarrow> basic_data_cleaning td pn (s' ! df_std) = Inl e
        | Inr df_clean \<Rightarrow> df_clean = length s' \<and> basic_data_cleaning td pn (s' ! df_std) = Inr (s'' ! df_clean))"
    by simp_all
  have first: "(\<forall>a < length s. s'' ! a = s ! a) \<and> s'' ! df_std = s' ! df_std
      \<and> (case res of
            Inl e \<Rightarrow> basic_data_cleaning td pn (s' ! df_std) = Inl e
          | Inr df_clean \<Rightarrow>
              df_clean = length s + 1
            \<and> basic_data_cleaning td pn (s' ! df_std) = Inr (s'' ! df_clean))"
    using k k2 r2 a l by (auto split: sum.splits)
  obtain t' res' where cl': "basic_data_cleaning_obj td pn s df = (t', res')"
    by (cases "basic_data_cleaning_obj td pn s df") auto
  from basic_data_cleaning_obj_frame [OF assms cl']
  have second: "(\<forall>a < length s. t' ! a = s ! a)
      \<and> (case res' of
            Inl e \<Rightarrow> basic_data_cleaning td pn (s ! df) = Inl e
          | Inr df_clean \<Rightarrow>
              df_clean = length s \<and> basic_data_cleaning td pn (s ! df) = Inr (t' ! df_clean))"
    by simp
  show ?thesis
    unfolding st prod.case cl cl' using a k v first second by blast
qed

text \<open>Claim C9 on a store that holds the example frame at address 0.\<close>

theorem input_frame_is_never_mutated_witness:
  "(0::nat) < length [sales_example]
   \<and> (case standardize_columns_obj [sales_example] 0 ''a.csv'' of
        (s', df_std, m) \<Rightarrow>
          df_std = 1 \<and> s' ! 0 = sales_example
        \<and> (case basic_data_cleaning_obj example_to_datetime example_parse s' df_std of
              (s'', res) \<Rightarrow> s'' ! 0 = sales_example \<and> s'' ! df_std = s' ! df_std \<and> res = Inr 2))"
proof -
  have h: "(0::nat) < length [sales_example]" by simp
  have r: "snd (basic_data_cleaning_obj example_to_datetime example_parse
      (fst (standardize_columns_obj [sales_example] 0 ''a.csv'')) 1) = Inr 2"
    by code_simp
  show ?thesis
    using h r input_frame_is_never_mutated [OF h, of "''a.csv''" example_to_datetime example_parse]
    by (auto split: prod.splits sum.splits)
qed

lemma process_single_file_result_state:
  "fst (process_single_file env self path) = fst (process_single_file env self' path)"
  by (auto simp: process_single_file_def Let_def split: sum.splits prod.splits)

lemma try_file_outcome_state:
  "fst (try_file env cb n i self path) = fst (try_file env cb n i self' path)"
proof (cases "call_progress cb (i - 1) n (Some (path_name path))")
  case (Some e)
  then show ?thesis by (simp add: try_file_def)
next
  case None
  obtain r st where a: "process_single_file env self path = (r, st)"
    by (cases "process_single_file env self path") auto
  obtain r' st' where b: "process_single_file env self' path = (r', st')"
    by (cases "process_single_file env self' path") auto
  have "r = r'"
    using process_single_file_result_state [of env self path self'] a b by simp
  then show ?thesis
    using None a b by (auto simp: try_file_def split: sum.splits prod.splits)
qed

lemma dict_set_keys:
  "map fst (dict_set d k v) = (if k \<in> fst ` set d then map fst d else map fst d @ [k])"
proof (induction d)
  case Nil
  then show ?case by simp
next
  case (Cons kv d)
  obtain k' v' where kv: "kv = (k', v')" by (cases kv)
  show ?case
  proof (cases "k' = k")
    case True
    then show ?thesis by (simp add: kv)
  next
    case False
    then show ?thesis using Cons by (simp add: kv)
  qed
qed

lemma dict_set_keys_set: "fst ` set (dict_set d k v) = insert k (fst ` set d)"
proof -
  have "set (map fst (dict_set d k v)) = insert k (set (map fst d))"
    unfolding dict_set_keys by auto
  then show ?thesis by simp
qed

lemma dict_set_keys_distinct: "distinct (map fst d) \<Longrightarrow> distinct (map fst (dict_set d k v))"
  unfolding dict_set_keys by auto

text \<open>The results of the loop: their keys, and the entry under each key.\<close>

lemma process_files_loop_results:
  assumes "process_files_loop env cb n i paths results self = (results', self')"
    and "distinct (map fst results)"
  shows "distinct (map fst results')
     \<and> set (map fst results') = set (map fst results) \<union> set (map path_name paths)
     \<and> (set (map fst results) \<inter> set (map path_name paths) = {} \<and> distinct (map path_name paths)
          \<longrightarrow> map fst results' = map fst results @ map path_name paths)
     \<and> (\<forall>name. name \<notin> set (map path_name paths) \<longrightarrow> map_of results' name = map_of results name)
     \<and> (\<forall>k < length paths.
          (\<forall>k'. k < k' \<and> k' < length paths \<longrightarrow> path_name (paths ! k') \<noteq> path_name (paths ! k))
          \<longrightarrow> (\<forall>st. map_of results' (path_name (paths ! k))
                    = Some (fst (try_file env cb n (i + k) st (paths ! k)))))"
  using assms
proof (induction paths arbitrary: i results self)
  case Nil
  then show ?case by simp
next
  case (Cons path rest)
  obtain outcome st1 where t: "try_file env cb n i self path = (outcome, st1)"
    by (cases "try_file env cb n i self path") auto
  define r1 where "r1 = dict_set results (path_name path) outcome"
  have run: "process_files_loop env cb n (i + 1) rest r1 st1 = (results', self')"
    using Cons.prems(1) t by (simp add: r1_def)
  have d1: "distinct (map fst r1)"
    unfolding r1_def using Cons.prems(2) by (rule dict_set_keys_distinct)
  have k1: "set (map fst r1) = insert (path_name path) (set (map fst results))"
    using dict_set_keys_set [of results "path_name path" outcome] by (simp add: r1_def)
  have m1: "map_of r1 = (map_of results)(path_name path \<mapsto> outcome)"
    by (simp add: r1_def map_of_dict_set)
  have oc: "outcome = fst (try_file env cb n i st path)" for st
    using try_file_outcome_state [of env cb n i self path st] t by simp
  note ih = Cons.IH [OF run d1]
  have a: "distinct (map fst results')" using ih by blast
  have b: "set (map fst results') = set (map fst results) \<union> set (map path_name (path # rest))"
    using ih k1 by auto
  have c: "map fst results' = map fst results @ map path_name (path # rest)"
    if "set (map fst results) \<inter> set (map path_name (path # rest)) = {}"
      and "distinct (map path_name (path # rest))"
  proof -
    have "path_name path \<notin> set (map fst results)" using that(1) by auto
    then have e: "map fst r1 = map fst results @ [path_name path]"
      by (simp add: r1_def dict_set_keys)
    have "set (map fst r1) \<inter> set (map path_name rest) = {}"
      using that k1 by auto
    moreover have "distinct (map path_name rest)" using that(2) by simp
    ultimately have "map fst results' = map fst r1 @ map path_name rest"
      using ih by blast
    then show ?thesis by (simp add: e)
  qed
  have d: "map_of results' name = map_of results name"
    if "name \<notin> set (map path_name (path # rest))" for name
  proof -
    have "map_of results' name = map_of r1 name" using ih that by simp
    then show ?thesis using that by (simp add: m1)
  qed
  have e: "map_of results' (path_name ((path # rest) ! k))
        = Some (fst (try_file env cb n (i + k) st ((path # rest) ! k)))"
    if "k < length (path # rest)"
      and last: "\<forall>k'. k < k' \<and> k' < length (path # rest)
          \<longrightarrow> path_name ((path # rest) ! k') \<noteq> path_name ((path # rest) ! k)"
    for k st
  proof (cases k)
    case 0
    have "path_name path \<notin> set (map path_name rest)"
    proof
      assume "path_name path \<in> set (map path_name rest)"
      then obtain j where "j < length rest" "path_name (rest ! j) = path_name path"
        by (auto simp: in_set_conv_nth)
      then show False using last 0 by (auto dest: spec [of _ "Suc j"])
    qed
    then have "map_of results' (path_name path) = map_of r1 (path_name path)"
      using ih by simp
    then show ?thesis using 0 oc [of st] by (simp add: m1)
  next
    case (Suc k0)
    have "k0 < length rest" using that(1) Suc by simp
    moreover have "\<forall>k'. k0 < k' \<and> k' < length rest
        \<longrightarrow> path_name (rest ! k') \<noteq> path_name (rest ! k0)"
      using last Suc by (auto dest: spec [of _ "Suc _"])
    ultimately have "map_of results' (path_name (rest ! k0))
        = Some (fst (try_file env cb n (i + 1 + k0) st (rest ! k0)))"
      using ih by blast
    then show ?thesis using Suc by simp
  qed
  show ?case using a b c d e by blast
qed

text \<open>
  Claim C8, as amended. Unless the closing call of the progress callback raises,
  \<open>process_multiple_files\<close> returns a mapping whose keys are the file names of the
  paths, each once. The entry under a name is the outcome of the last path with that
  name: a failure with the path and the exception when the callback or
  \<open>process_single_file\<close> raised for it, a success with the path otherwise; whatever
  the files before it did. When the names of the paths are pairwise distinct, the
  mapping has exactly one entry per path, in the order of the paths.
\<close>

theorem batch_has_one_outcome_per_file_name:
  assumes "call_progress cb (length file_paths) (length file_paths) None = None"
  shows "\<exists>results self'.
      process_multiple_files env cb file_paths self = (Inr results, self')
    \<and> distinct (map fst results)
    \<and> set (map fst results) = set (map path_name file_paths)
    \<and> (\<forall>k < length file_paths.
          (\<forall>k'. k < k' \<and> k' < length file_paths
              \<longrightarrow> path_name (file_paths ! k') \<noteq> path_name (file_paths ! k))
          \<longrightarrow> (\<forall>st. map_of results (path_name (file_paths ! k))
                    = Some (fst (try_file env cb (length file_paths) (k + 1) st (file_paths ! k)))))
    \<and> (distinct (map path_name file_paths)
          \<longrightarrow> map fst results = map path_name file_paths \<and> length results = length file_paths)
    \<and> (\<forall>i st path e. call_progress cb (i - 1) (length file_paths) (Some (path_name path)) = Some e
          \<longrightarrow> fst (try_file env cb (length file_paths) i st path) = Failure e path)
    \<and> (\<forall>i st path e. call_progress cb (i - 1) (length file_paths) (Some (path_name path)) = None
          \<and> fst (process_single_file env st path) = Inl e
          \<longrightarrow> fst (try_file env cb (length file_paths) i st path) = Failure e path)
    \<and> (\<forall>i st path df sm. call_progress cb (i - 1) (length file_paths) (Some (path_name path)) = None
          \<and> fst (process_single_file env st path) = Inr (df, sm)
          \<longrightarrow> fst (try_file env cb (length file_paths) i st path) = Success df sm path)"
proof -
  obtain results self' where
    loop: "process_files_loop env cb (length file_paths) 1 file_paths [] self = (results, self')"
    by (cases "process_files_loop env cb (length file_paths) 1 file_paths [] self") auto
  have res: "process_multiple_files env cb file_paths self = (Inr results, self')"
    using assms loop by (simp add: process_multiple_files_def Let_def)
  have "distinct (map fst ([] :: (string \<times> 's outcome) list))" by simp
  from process_files_loop_results [OF loop this]
  have a: "distinct (map fst results)"
    and b: "set (map fst results) = set (map path_name file_paths)"
    and c: "distinct (map path_name file_paths) \<longrightarrow> map fst results = map path_name file_paths"
    and d: "\<forall>k < length file_paths.
          (\<forall>k'. k < k' \<and> k' < length file_paths
              \<longrightarrow> path_name (file_paths ! k') \<noteq> path_name (file_paths ! k))
          \<longrightarrow> (\<forall>st. map_of results (path_name (file_paths ! k))
                    = Some (fst (try_file env cb (length file_paths) (k + 1) st (file_paths ! k))))"
    by (simp_all add: add.commute)
  have c': "distinct (map path_name file_paths)
      \<longrightarrow> map fst results = map path_name file_paths \<and> length results = length file_paths"
  proof
    assume "distinct (map path_name file_paths)"
    with c have e: "map fst results = map path_name file_paths" by simp
    then have "length results = length file_paths" by (rule map_eq_imp_length_eq)
    then show "map fst results = map path_name file_paths \<and> length results = length file_paths"
      using e by simp
  qed
  have f1: "\<forall>i st path e. call_progress cb (i - 1) (length file_paths) (Some (path_name path)) = Some e
          \<longrightarrow> fst (try_file env cb (length file_paths) i st path) = Failure e path"
    by (simp add: try_file_def)
  have f2: "\<forall>i st path e. call_progress cb (i - 1) (length file_paths) (Some (path_name path)) = None
          \<and> fst (process_single_file env st path) = Inl e
          \<longrightarrow> fst (try_file env cb (length file_paths) i st path) = Failure e path"
    by (auto simp: try_file_def split: prod.splits sum.splits)
  have f3: "\<forall>i st path df sm. call_progress cb (i - 1) (length file_paths) (Some (path_name path)) = None
          \<and> fst (process_single_file env st path) = Inr (df, sm)
          \<longrightarrow> fst (try_file env cb (length file_paths) i st path) = Success df sm path"
    by (auto simp: try_file_def split: prod.splits sum.splits)
  show ?thesis using res a b c' d f1 f2 f3 by blast
qed

text \<open>
  Claim C8, as amended, on a batch of three files: one with data, one without rows and
  one that cannot be read. The batch returns three entries, the last one a failure.
\<close>

theorem batch_has_one_outcome_per_file_name_witness:
  "call_progress None (length [''data/orders.csv'', ''data/empty.csv'', ''data/bad.csv''])
     (length [''data/orders.csv'', ''data/empty.csv'', ''data/bad.csv'']) None = None
   \<and> distinct (map path_name [''data/orders.csv'', ''data/empty.csv'', ''data/bad.csv''])
   \<and> (\<exists>results self'.
        process_multiple_files example_env None
          [''data/orders.csv'', ''data/empty.csv'', ''data/bad.csv''] new_processor = (Inr results, self')
      \<and> map fst results = [''orders.csv'', ''empty.csv'', ''bad.csv'']
      \<and> length results = 3
      \<and> map_of results ''bad.csv''
          = Some (Failure (ProcessingFailed ''data/bad.csv'' (External ''cannot read'')) ''data/bad.csv''))"
proof -
  define paths where "paths = [''data/orders.csv'', ''data/empty.csv'', ''data/bad.csv'']"
  have h: "call_progress None (length paths) (length paths) None = None"
    by (simp add: call_progress_def)
  have n: "map path_name paths = [''orders.csv'', ''empty.csv'', ''bad.csv'']"
    unfolding paths_def by code_simp
  then have dn: "distinct (map path_name paths)" by simp
  have t: "fst (try_file example_env None (length paths) (2 + 1) new_processor (paths ! 2))
      = Failure (ProcessingFailed ''data/bad.csv'' (External ''cannot read'')) ''data/bad.csv''"
    unfolding paths_def by code_simp
  from batch_has_one_outcome_per_file_name [OF h, of example_env new_processor]
  obtain results self' where
    r: "process_multiple_files example_env None paths new_processor = (Inr results, self')"
    and m: "\<forall>k < length paths.
          (\<forall>k'. k < k' \<and> k' < length paths \<longrightarrow> path_name (paths ! k') \<noteq> path_name (paths ! k))
          \<longrightarrow> (\<forall>st. map_of results (path_name (paths ! k))
                    = Some (fst (try_file example_env None (length paths) (k + 1) st (paths ! k))))"
    and k: "distinct (map path_name paths)
          \<longrightarrow> map fst results = map path_name paths \<and> length results = length paths"
    by blast
  have lt: "2 < length paths" by (simp add: paths_def)
  have "length paths = 3" by (simp add: paths_def)
  then have last: "\<forall>k'. 2 < k' \<and> k' < length paths \<longrightarrow> path_name (paths ! k') \<noteq> path_name (paths ! 2)"
    by auto
  have "map_of results (path_name (paths ! 2))
      = Some (fst (try_file example_env None (length paths) (2 + 1) new_processor (paths ! 2)))"
    using m [rule_format, OF lt] last by blast
  moreover have "path_name (paths ! 2) = ''bad.csv''" using n by (simp add: paths_def)
  ultimately have "map_of results ''bad.csv''
      = Some (Failure (ProcessingFailed ''data/bad.csv'' (External ''cannot read'')) ''data/bad.csv'')"
    using t by simp
  moreover have "map fst results = [''orders.csv'', ''empty.csv'', ''bad.csv'']"
    "length results = 3"
    using k dn n by (simp_all add: paths_def)
  ultimately have "process_multiple_files example_env None paths new_processor = (Inr results, self')
      \<and> map fst results = [''orders.csv'', ''empty.csv'', ''bad.csv'']
      \<and> length results = 3
      \<and> map_of results ''bad.csv''
          = Some (Failure (ProcessingFailed ''data/bad.csv'' (External ''cannot read'')) ''data/bad.csv'')"
    using r by simp
  then have "\<exists>results self'.
        process_multiple_files example_env None paths new_processor = (Inr results, self')
      \<and> map fst results = [''orders.csv'', ''empty.csv'', ''bad.csv'']
      \<and> length results = 3
      \<and> map_of results ''bad.csv''
          = Some (Failure (ProcessingFailed ''data/bad.csv'' (External ''cannot read'')) ''data/bad.csv'')"
    by (intro exI)
  then show ?thesis using h dn unfolding paths_def by (intro conjI)
qed

text \<open>
  Claim C8 as first stated fails for two paths with the same file name: the batch of
  two files returns one entry, that of the second path.
\<close>

theorem batch_of_two_files_one_entry_counterexample:
  "length [''data/orders.csv'', ''data/old/orders.csv''] = 2
   \<and> fst (process_multiple_files example_env None
            [''data/orders.csv'', ''data/old/orders.csv''] new_processor)
       = Inr [(''orders.csv'',
               Success \<lparr>columns = [''Product'', ''Quantity'', ''Source_File''],
                         rows = [[Str ''Mouse'', Num 2, Str ''orders.csv'']]\<rparr>
                 1 ''data/old/orders.csv'')]"
  by code_simp

subsection \<open>First occurrences\<close>






lemma set_unmarked_from:
  "set (unmarked (duplicated_from seen xs) xs) = set xs - set seen"
  by (induction xs arbitrary: seen) auto

lemma distinct_unmarked_from: "distinct (unmarked (duplicated_from seen xs) xs)"
proof (induction xs arbitrary: seen)
  case Nil
  then show ?case by simp
next
  case (Cons x xs)
  have "x \<notin> set (unmarked (duplicated_from (x # seen) xs) xs)"
    by (simp add: set_unmarked_from)
  then show ?case using Cons by simp
qed




lemma distinct_unique: "distinct (unique xs)"
  by (simp add: unique_def duplicated_def distinct_unmarked_from)

subsection \<open>Reindexing and concatenation\<close>



lemma wf_reindex: "wf_table (reindex df cols)"
  by (simp add: reindex_def wf_table_def list_all_iff)



lemma getitem_column_or_nan:
  "c \<in> set (columns df) \<Longrightarrow> getitem df c = Inr (column_or_nan df c)"
  using index_of_mem [of c "columns df"] by (auto simp: getitem_def column_or_nan_def)











subsection \<open>The provenance column through the two tiers\<close>
















subsection \<open>The provenance tag through mapping and cleaning\<close>

































end
